theory Spec2Isabelle
  imports Main "HOL-Library.Monad_Syntax"
begin

section \<open>Go values used by the formatters\<close>

subsection \<open>Machine integers\<close>

text \<open>
  Go's \<open>int\<close> is modelled at 64 bits (the 20-byte buffer of \<open>itoa\<close> is sized for
  it: 19 digits and a sign).  Values are mathematical integers together with the range
  predicate \<open>is_int\<close>; the one place where the source can overflow (\<open>wid--\<close>) wraps
  explicitly through \<open>wrap\<close>, as Go's signed arithmetic does.
\<close>

definition min_int :: int where
  "min_int = - (2 ^ 63)"

definition max_int :: int where
  "max_int = 2 ^ 63 - 1"

definition is_int :: "int \<Rightarrow> bool" where
  "is_int x = (min_int \<le> x \<and> x \<le> max_int)"

definition wrap :: "int \<Rightarrow> int" where
  "wrap x = (x + 2 ^ 63) mod 2 ^ 64 - 2 ^ 63"

text \<open>Go's \<open>/\<close> on integers truncates towards zero (HOL's \<open>div\<close> rounds down).\<close>

definition quo :: "int \<Rightarrow> int \<Rightarrow> int" where
  "quo a b = (if (a < 0) = (b < 0) then \<bar>a\<bar> div \<bar>b\<bar> else - (\<bar>a\<bar> div \<bar>b\<bar>))"

text \<open>
  The conversion \<open>byte(x)\<close> keeps the low eight bits.  Because 256 divides \<open>2 ^ 64\<close>,
  a wrap-around inside the converted sum does not change the result, so the sum is
  taken over the integers.
\<close>

definition byte :: "int \<Rightarrow> char" where
  "byte x = char_of x"

subsection \<open>Errors, the output stream and standard error\<close>

text \<open>An \<open>error\<close> value is represented by the text its \<open>Error()\<close> method returns.\<close>

type_synonym go_error = string

text \<open>
  The state the formatters act on: the bytes the \<open>io.Writer\<close> has accepted, the bytes
  printed on \<open>os.Stderr\<close>, and the behaviour of the writer on its coming \<open>Write\<close>
  calls.  An entry \<open>None\<close> of \<open>faults\<close> (or an exhausted list) is a call that accepts
  everything; \<open>Some (n, e)\<close> is a call that accepts only the first \<open>n\<close> bytes and
  returns the error \<open>e\<close>.
\<close>

record io_state =
  out :: string
  diag :: string
  faults :: "(nat \<times> go_error) option list"

definition Write :: "io_state \<Rightarrow> string \<Rightarrow> io_state \<times> go_error option" where
  "Write s p =
     (case faults s of
        [] \<Rightarrow> (s\<lparr>out := out s @ p\<rparr>, None)
      | None # fs \<Rightarrow> (s\<lparr>out := out s @ p, faults := fs\<rparr>, None)
      | Some (n, e) # fs \<Rightarrow> (s\<lparr>out := out s @ take n p, faults := fs\<rparr>, Some e))"

text \<open>\<open>fmt.Fprintf(os.Stderr, ...)\<close> with the text already formatted.\<close>

definition Fprintf_Stderr :: "io_state \<Rightarrow> string \<Rightarrow> io_state" where
  "Fprintf_Stderr s txt = s\<lparr>diag := diag s @ txt\<rparr>"

subsection \<open>The verbs of package fmt that the source uses\<close>

text \<open>
  \<open>dec n\<close> is the decimal numeral of a natural number.  \<open>fmt_d\<close> is the verb \<open>%d\<close>;
  \<open>fmt_0d w\<close> is \<open>%0wd\<close>: zero padding up to width \<open>w\<close>, where the sign of a negative
  number takes one column of the width.
\<close>

fun dec :: "nat \<Rightarrow> string" where
  "dec n = (if n < 10 then [byte (48 + int n)]
            else dec (n div 10) @ [byte (48 + int (n mod 10))])"

declare dec.simps [simp del]

definition pad0 :: "nat \<Rightarrow> string \<Rightarrow> string" where
  "pad0 w s = replicate (w - length s) (CHR ''0'') @ s"

definition fmt_d :: "int \<Rightarrow> string" where
  "fmt_d i = (if i < 0 then CHR ''-'' # dec (nat (- i)) else dec (nat i))"

definition fmt_0d :: "nat \<Rightarrow> int \<Rightarrow> string" where
  "fmt_0d w i = (if i < 0 then CHR ''-'' # pad0 (w - 1) (dec (nat (- i)))
                 else pad0 w (dec (nat i)))"

section \<open>The helpers of formatters.go\<close>

text \<open>
  \<open>writeString\<close>: a failed write is reported on standard error and not returned.
\<close>

definition writeString :: "io_state \<Rightarrow> string \<Rightarrow> io_state" where
  "writeString w str =
     (case Write w str of
        (w', None) \<Rightarrow> w'
      | (w', Some err) \<Rightarrow> Fprintf_Stderr w' (''could not write entry log, err: '' @ err))"

text \<open>
  The loop of \<open>itoa\<close> over \<open>(i, wid, bp, b)\<close>.  An index expression \<open>b[bp]\<close> outside
  the 20 bytes of \<open>b\<close> is a run-time panic, the result \<open>None\<close>.  The loop ends with
  the values of \<open>i\<close>, \<open>bp\<close> and \<open>b\<close> that the code after it reads.
\<close>

function itoa_loop :: "int \<Rightarrow> int \<Rightarrow> int \<Rightarrow> string \<Rightarrow> (int \<times> int \<times> string) option" where
  "itoa_loop i wid bp b =
     (if 10 \<le> i \<or> 1 < wid then
        (let wid' = wrap (wid - 1);
             q = quo i 10
         in if 0 \<le> bp \<and> bp < int (length b)
            then itoa_loop q wid' (bp - 1) (b[nat bp := byte (48 + i - q * 10)])
            else None)
      else Some (i, bp, b))"
  by pat_completeness auto
termination
  by (relation "measure (\<lambda>(i, wid, bp, b). nat (bp + 1))") auto

declare itoa_loop.simps [simp del]

text \<open>
  \<open>itoa_buf i wid\<close> is the first half of \<open>itoa\<close> (lines 110 to 121): it assembles the
  digits from the end of the buffer and yields the final \<open>i\<close> and the slice \<open>b[bp:]\<close>.
\<close>

definition itoa_buf :: "int \<Rightarrow> int \<Rightarrow> (int \<times> string) option" where
  "itoa_buf i wid =
     (case itoa_loop i wid 19 (replicate 20 (CHR 0x00)) of
        None \<Rightarrow> None
      | Some (i', bp, b) \<Rightarrow>
          if 0 \<le> bp \<and> bp < int (length b)
          then Some (i', drop (nat bp) (b[nat bp := byte (48 + i')]))
          else None)"

text \<open>
  \<open>itoa\<close>: the slice is written with one \<open>Write\<close>; a failure is reported on standard
  error (with the value \<open>i\<close> has after the loop) and not returned.
\<close>

definition itoa :: "io_state \<Rightarrow> int \<Rightarrow> int \<Rightarrow> io_state option" where
  "itoa w i wid =
     (case itoa_buf i wid of
        None \<Rightarrow> None
      | Some (i', bs) \<Rightarrow>
          (case Write w bs of
             (w', None) \<Rightarrow> Some w'
           | (w', Some err) \<Rightarrow>
               Some (Fprintf_Stderr w' (''failed adding zero padding to '' @ fmt_d i'))))"

text \<open>
  The bytes \<open>itoa\<close> hands to \<open>Write\<close> (empty when it panics before writing).  This
  is a name for stating results, not a function of the source.
\<close>

definition itoa_bytes :: "int \<Rightarrow> int \<Rightarrow> string" where
  "itoa_bytes i wid = (case itoa_buf i wid of None \<Rightarrow> [] | Some (i', bs) \<Rightarrow> bs)"

section \<open>What the formatters read: the time stamp and the logger\<close>

text \<open>
  \<open>time.Time\<close> belongs to Go's standard library.  A value is represented by what its
  accessors \<open>Date\<close>, \<open>Clock\<close> and \<open>Nanosecond\<close> return; \<open>valid_Time\<close> states the
  ranges these accessors document.  The year may be any \<open>int\<close>, also zero or negative.
\<close>

record Time =
  tm_year :: int
  tm_month :: int
  tm_day :: int
  tm_hour :: int
  tm_min :: int
  tm_sec :: int
  tm_nsec :: int

definition Date :: "Time \<Rightarrow> int \<times> int \<times> int" where
  "Date t = (tm_year t, tm_month t, tm_day t)"

definition Clock :: "Time \<Rightarrow> int \<times> int \<times> int" where
  "Clock t = (tm_hour t, tm_min t, tm_sec t)"

definition Nanosecond :: "Time \<Rightarrow> int" where
  "Nanosecond t = tm_nsec t"

definition valid_Time :: "Time \<Rightarrow> bool" where
  "valid_Time t =
     (is_int (tm_year t) \<and>
      1 \<le> tm_month t \<and> tm_month t \<le> 12 \<and>
      1 \<le> tm_day t \<and> tm_day t \<le> 31 \<and>
      0 \<le> tm_hour t \<and> tm_hour t \<le> 23 \<and>
      0 \<le> tm_min t \<and> tm_min t \<le> 59 \<and>
      0 \<le> tm_sec t \<and> tm_sec t \<le> 59 \<and>
      0 \<le> tm_nsec t \<and> tm_nsec t \<le> 999999999)"

text \<open>
  Modelled from the spec: the type \<open>LogLevel\<close> and its five constants are declared
  outside formatters.go.  \<open>Unknown k\<close> stands for a value of the level's integer type
  that is none of the five constants.
\<close>

datatype LogLevel = Dbg | Nfo | Wrn | Err | Ftl | Unknown int

text \<open>
  Modelled from the spec: the method \<open>LogLevel.String\<close> is declared outside
  formatters.go; section 6 of the spec lists the five names.  The spec names no string
  for other values; the empty string stands there.  \<open>JSONFormatter_Format\<close> takes the
  method as a parameter, so no result about it rests on this table.
\<close>

fun LogLevel_String :: "LogLevel \<Rightarrow> string" where
  "LogLevel_String Dbg = ''debug''"
| "LogLevel_String Nfo = ''info''"
| "LogLevel_String Wrn = ''warn''"
| "LogLevel_String Err = ''error''"
| "LogLevel_String Ftl = ''fatal''"
| "LogLevel_String (Unknown k) = []"

text \<open>
  Modelled from the spec: the struct \<open>Logger\<close> is declared outside formatters.go; the
  formatters use its field mapping \<open>map[string]interface{}\<close> and its level.  A value of
  the mapping is a Go string or any other value (the type parameter).  The mapping is
  allocated (a nil map would panic on assignment).  The field \<open>fields\<close> is named
  \<open>fields_map\<close>, the plain name being taken by the record package.
\<close>

datatype 'v any = Str string | Val 'v

record 'v Logger =
  fields_map :: "string \<rightharpoonup> 'v any"
  logLevel :: LogLevel

section \<open>The timestamp of the structured formatter\<close>

text \<open>
  \<open>getTimestamp\<close>: \<open>fmt.Sprintf\<close> with the format
  \<^verbatim>\<open>%d-%02d-%02d %02d:%02d:%02d:%06d\<close>, verb by verb.
\<close>

definition getTimestamp :: "Time \<Rightarrow> string" where
  "getTimestamp now =
     (case Date now of (year, month, day) \<Rightarrow>
      case Clock now of (hour, minute, sec) \<Rightarrow>
      let nano = quo (Nanosecond now) 1000
      in fmt_d year @ ''-'' @ fmt_0d 2 month @ ''-'' @ fmt_0d 2 day @ '' '' @
         fmt_0d 2 hour @ '':'' @ fmt_0d 2 minute @ '':'' @ fmt_0d 2 sec @ '':'' @
         fmt_0d 6 nano)"

section \<open>TextFormatter\<close>

text \<open>
  \<open>TextFormatter.Format\<close>.  The result is \<open>None\<close> when a call of \<open>itoa\<close> panics;
  otherwise the new state and the returned error (\<open>None\<close> for \<open>nil\<close>).
\<close>

definition TextFormatter_Format ::
  "io_state \<Rightarrow> 'v Logger \<Rightarrow> string \<Rightarrow> Time \<Rightarrow> (io_state \<times> go_error option) option" where
  "TextFormatter_Format w l msg entryTime =
     (case Date entryTime of (year, month, day) \<Rightarrow>
      case Clock entryTime of (hour, minute, sec) \<Rightarrow>
      do {
        w1 \<leftarrow> itoa w year 4;
        let w2 = writeString w1 ''-'';
        w3 \<leftarrow> itoa w2 month 2;
        let w4 = writeString w3 ''-'';
        w5 \<leftarrow> itoa w4 day 2;
        let w6 = writeString w5 '' '';
        w7 \<leftarrow> itoa w6 hour 2;
        let w8 = writeString w7 '':'';
        w9 \<leftarrow> itoa w8 minute 2;
        let w10 = writeString w9 '':'';
        w11 \<leftarrow> itoa w10 sec 2;
        let w12 = writeString w11 '':'';
        w13 \<leftarrow> itoa w12 (quo (Nanosecond entryTime) 1000) 6;
        let w14 = writeString w13 '' '';
        let level = (case logLevel l of
                       Dbg \<Rightarrow> ''DBG ''
                     | Nfo \<Rightarrow> ''NFO ''
                     | Wrn \<Rightarrow> ''WRN ''
                     | Err \<Rightarrow> ''ERR ''
                     | Ftl \<Rightarrow> ''FTL ''
                     | Unknown k \<Rightarrow> []);
        let w15 = writeString w14 level;
        let w16 = writeString w15 msg;
        let w17 = (if length msg = 0 \<or> msg ! (length msg - 1) \<noteq> CHR 0x0A
                   then writeString w16 [CHR 0x0A] else w16);
        Some (w17, None)
      })"

text \<open>
  The date and time bytes of steps 1 and 3, with the space of step 2 between them:
  what the seven \<open>itoa\<close> calls and the separators between them hand to the stream.
  A name for stating results, not a function of the source.
\<close>

definition text_stamp :: "Time \<Rightarrow> string" where
  "text_stamp t =
     itoa_bytes (tm_year t) 4 @ ''-'' @ itoa_bytes (tm_month t) 2 @ ''-'' @
     itoa_bytes (tm_day t) 2 @ '' '' @
     itoa_bytes (tm_hour t) 2 @ '':'' @ itoa_bytes (tm_min t) 2 @ '':'' @
     itoa_bytes (tm_sec t) 2 @ '':'' @ itoa_bytes (quo (tm_nsec t) 1000) 6"

section \<open>JSONFormatter\<close>

text \<open>
  \<open>json.Encoder.Encode\<close> belongs to Go's standard library: it marshals the value, and
  only when that succeeds writes the bytes and a newline with one \<open>Write\<close>; it returns
  the error of whichever step failed.  What \<open>marshal\<close> makes of a mapping is a
  parameter.
\<close>

definition Encoder_Encode ::
  "('m \<Rightarrow> go_error + string) \<Rightarrow> io_state \<Rightarrow> 'm \<Rightarrow> io_state \<times> go_error option" where
  "Encoder_Encode marshal w v =
     (case marshal v of
        Inl err \<Rightarrow> (w, Some err)
      | Inr bs \<Rightarrow> Write w (bs @ [CHR 0x0A]))"

text \<open>
  \<open>JSONFormatter.Format\<close>.  The logger is passed by pointer and its mapping is
  assigned to, so the logger is returned with the state and the error.
\<close>

definition JSONFormatter_Format ::
  "(LogLevel \<Rightarrow> string) \<Rightarrow> ((string \<rightharpoonup> 'v any) \<Rightarrow> go_error + string) \<Rightarrow>
   io_state \<Rightarrow> 'v Logger \<Rightarrow> string \<Rightarrow> Time \<Rightarrow> io_state \<times> 'v Logger \<times> go_error option" where
  "JSONFormatter_Format String marshal w l msg entryTime =
     (let l1 = l\<lparr>fields_map := (fields_map l)(''msg'' \<mapsto> Str msg)\<rparr>;
          l2 = l1\<lparr>fields_map := (fields_map l1)(''timestamp'' \<mapsto> Str (getTimestamp entryTime))\<rparr>;
          l3 = l2\<lparr>fields_map := (fields_map l2)(''level'' \<mapsto> Str (String (logLevel l2)))\<rparr>
      in case Encoder_Encode marshal w (fields_map l3) of
           (w', Some err) \<Rightarrow> (w', l3, Some (''failed to marshal fields to JSON, '' @ err))
         | (w', None) \<Rightarrow> (w', l3, None))"

section \<open>Arithmetic and numerals\<close>

lemma wrap_id: "is_int x \<Longrightarrow> wrap x = x"
  by (simp add: is_int_def wrap_def min_int_def max_int_def)


lemma quo_10_nonneg: "0 \<le> i \<Longrightarrow> quo i 10 = i div 10"
  by (simp add: quo_def)

lemma quo_10_neg: "i < 0 \<Longrightarrow> quo i 10 \<le> 0"
  by (simp add: quo_def)

lemma byte_48: "byte 48 = CHR ''0''"
  by code_simp

lemma dec_small: "n < 10 \<Longrightarrow> dec n = [byte (48 + int n)]"
  by (simp add: dec.simps)

lemma dec_large: "10 \<le> n \<Longrightarrow> dec n = dec (n div 10) @ [byte (48 + int (n mod 10))]"
  by (subst dec.simps) simp

lemma dec_0: "dec 0 = ''0''"
  by (simp add: dec_small byte_48)

lemma dec_digit: "0 \<le> i \<Longrightarrow> i < 10 \<Longrightarrow> dec (nat i) = [byte (48 + i)]"
  using dec_small [of "nat i"] by simp

lemma dec_nat_large:
  assumes "10 \<le> i"
  shows "dec (nat i) = dec (nat (i div 10)) @ [byte (48 + i mod 10)]"
proof -
  have "dec (nat i) = dec (nat i div 10) @ [byte (48 + int (nat i mod 10))]"
    using assms by (intro dec_large) simp
  moreover have "nat i div 10 = nat (i div 10)"
    using assms by (simp add: nat_div_distrib)
  moreover have "int (nat i mod 10) = i mod 10"
    using assms by (simp add: zmod_int)
  ultimately show ?thesis by simp
qed

lemma dec_not_Nil: "dec n \<noteq> []"
  by (subst dec.simps) simp

lemma length_dec_ge1: "1 \<le> int (length (dec n))"
  using dec_not_Nil [of n] by (cases "dec n") simp_all

lemma length_dec_ge2:
  assumes "10 \<le> n"
  shows "2 \<le> int (length (dec n))"
proof -
  have "dec n = dec (n div 10) @ [byte (48 + int (n mod 10))]"
    using assms by (rule dec_large)
  then have "length (dec n) = length (dec (n div 10)) + 1"
    by simp
  with length_dec_ge1 [of "n div 10"] show ?thesis by simp
qed

lemma length_dec_le: "n < 10 ^ k \<Longrightarrow> 0 < k \<Longrightarrow> length (dec n) \<le> k"
proof (induction n arbitrary: k rule: dec.induct)
  case (1 n)
  show ?case
  proof (cases "n < 10")
    case True
    then show ?thesis using "1.prems" by (simp add: dec_small)
  next
    case False
    obtain j where k: "k = Suc j"
      using "1.prems"(2) by (cases k) simp_all
    have "j \<noteq> 0"
      using False "1.prems"(1) k by (cases j) simp_all
    moreover have "n div 10 < 10 ^ j"
      using "1.prems"(1) k by (simp add: less_mult_imp_div_less mult.commute)
    ultimately have "length (dec (n div 10)) \<le> j"
      using False by (intro "1.IH") simp_all
    then show ?thesis using False k by (simp add: dec_large)
  qed
qed

lemma pad0_snoc: "pad0 w (s @ [c]) = pad0 (w - 1) s @ [c]"
  by (simp add: pad0_def)

lemma pad0_zero_snoc:
  assumes "1 < wid"
  shows "pad0 (nat (wid - 1)) ''0'' @ [c] = pad0 (nat wid) [c]"
proof -
  define k where "k = nat wid - 2"
  have "nat wid = Suc (Suc k)" and "nat (wid - 1) = Suc k"
    using assms by (simp_all add: k_def)
  then show ?thesis
    by (simp add: pad0_def replicate_append_same)
qed

section \<open>The loop of itoa\<close>

text \<open>
  The loop returns, with the index inside the buffer, when neither the digits nor the
  width need more than the bytes left of \<open>bp\<close> and the width does not wrap around.
\<close>

lemma length_dec_int: "i \<le> max_int \<Longrightarrow> int (length (dec (nat i))) \<le> 19"
proof -
  assume "i \<le> max_int"
  then have "nat i < 10 ^ 19" by (simp add: max_int_def)
  then have "length (dec (nat i)) \<le> 19" by (rule length_dec_le) simp
  then show ?thesis by simp
qed

lemma drop_update_here:
  "n < length b \<Longrightarrow> drop n (b[n := x]) = x # drop (Suc n) b"
  by (simp add: upd_conv_take_nth_drop)

lemma itoa_loop_some:
  assumes "i < 10 ^ nat (bp + 1)" "wid \<le> bp + 1" "0 \<le> bp" "bp < 20" "length b = 20"
    "min_int + bp \<le> wid"
  shows "\<exists>i' bp' b'. itoa_loop i wid bp b = Some (i', bp', b') \<and> 0 \<le> bp' \<and> bp' \<le> bp
           \<and> length b' = 20"
  using assms
proof (induction i wid bp b rule: itoa_loop.induct)
  case (1 i wid bp b)
  show ?case
  proof (cases "10 \<le> i \<or> 1 < wid")
    case False
    then show ?thesis using "1.prems" by (subst itoa_loop.simps) simp
  next
    case True
    have bp1: "1 \<le> bp"
    proof (rule ccontr)
      assume "\<not> 1 \<le> bp"
      with "1.prems" have "bp = 0" by simp
      with "1.prems" True show False by simp
    qed
    have w: "wrap (wid - 1) = wid - 1"
      using "1.prems" bp1 by (intro wrap_id) (simp add: is_int_def min_int_def max_int_def)
    have q: "quo i 10 < 10 ^ nat (bp - 1 + 1)"
    proof (cases "0 \<le> i")
      case True
      have "nat (bp + 1) = Suc (nat bp)" using bp1 by simp
      with "1.prems"(1) have "i < 10 * 10 ^ nat bp" by simp
      then have "i div 10 < 10 ^ nat bp" by simp
      with True show ?thesis by (simp add: quo_10_nonneg)
    next
      case False
      then have "quo i 10 \<le> 0" by (simp add: quo_10_neg)
      moreover have "(0::int) < 10 ^ nat (bp - 1 + 1)" by simp
      ultimately show ?thesis by linarith
    qed
    have "\<exists>i' bp' b'. itoa_loop (quo i 10) (wrap (wid - 1)) (bp - 1)
             (b[nat bp := byte (48 + i - quo i 10 * 10)]) = Some (i', bp', b')
           \<and> 0 \<le> bp' \<and> bp' \<le> bp - 1 \<and> length b' = 20"
      using "1.prems" bp1 True q w
      by (intro "1.IH"[OF True refl refl]) simp_all
    then show ?thesis
      using True "1.prems" by (subst itoa_loop.simps) (auto simp: Let_def)
  qed
qed

lemma itoa_loop_digits:
  assumes "0 \<le> i" "int (length (dec (nat i))) \<le> bp + 1" "wid \<le> bp + 1" "bp < 20"
    "length b = 20" "min_int + int (length (dec (nat i))) - 1 \<le> wid"
  shows "\<exists>i' bp' b'. itoa_loop i wid bp b = Some (i', bp', b') \<and> 0 \<le> bp' \<and> bp' \<le> bp
           \<and> length b' = 20 \<and> 0 \<le> i' \<and> i' < 10
           \<and> byte (48 + i') # drop (nat bp' + 1) b'
               = pad0 (nat wid) (dec (nat i)) @ drop (nat bp + 1) b"
  using assms
proof (induction i wid bp b rule: itoa_loop.induct)
  case (1 i wid bp b)
  have bp0: "0 \<le> bp"
    using "1.prems"(2) length_dec_ge1 [of "nat i"] by simp
  show ?case
  proof (cases "10 \<le> i \<or> 1 < wid")
    case False
    then have "dec (nat i) = [byte (48 + i)]"
      using "1.prems" by (intro dec_digit) simp_all
    moreover have "nat wid - 1 = 0" using False by arith
    then have "pad0 (nat wid) [byte (48 + i)] = [byte (48 + i)]"
      by (simp add: pad0_def)
    ultimately show ?thesis
      using False "1.prems" bp0 by (subst itoa_loop.simps) simp
  next
    case True
    have len2: "10 \<le> i \<Longrightarrow> 2 \<le> int (length (dec (nat i)))"
      using length_dec_ge2 [of "nat i"] by simp
    have bp1: "1 \<le> bp"
      using True "1.prems"(2,3) len2 by auto
    have w: "wrap (wid - 1) = wid - 1"
    proof (rule wrap_id)
      have "min_int + 1 \<le> wid"
        using True "1.prems"(6) len2 by (auto simp: min_int_def)
      then show "is_int (wid - 1)"
        using "1.prems"(3,4) by (simp add: is_int_def min_int_def max_int_def)
    qed
    have qd: "quo i 10 = i div 10" using "1.prems" by (simp add: quo_10_nonneg)
    have d: "48 + i - i div 10 * 10 = 48 + i mod 10"
      using minus_div_mult_eq_mod [of i 10] by simp
    have lq: "int (length (dec (nat (i div 10)))) = (if 10 \<le> i then int (length (dec (nat i))) - 1 else 1)"
      using "1.prems"(1) by (auto simp: dec_nat_large dec_0)
    let ?b = "b[nat bp := byte (48 + i - quo i 10 * 10)]"
    have "\<exists>i' bp' b'. itoa_loop (quo i 10) (wrap (wid - 1)) (bp - 1) ?b = Some (i', bp', b')
           \<and> 0 \<le> bp' \<and> bp' \<le> bp - 1 \<and> length b' = 20 \<and> 0 \<le> i' \<and> i' < 10
           \<and> byte (48 + i') # drop (nat bp' + 1) b'
               = pad0 (nat (wrap (wid - 1))) (dec (nat (quo i 10))) @ drop (nat (bp - 1) + 1) ?b"
    proof (intro "1.IH"[OF True refl refl])
      show "0 \<le> bp \<and> bp < int (length b)" using bp0 "1.prems" by simp
      show "0 \<le> quo i 10" using "1.prems"(1) by (simp add: qd)
      show "int (length (dec (nat (quo i 10)))) \<le> bp - 1 + 1"
        unfolding qd lq using "1.prems"(2) bp1 by simp
      show "wrap (wid - 1) \<le> bp - 1 + 1" unfolding w using "1.prems"(3) by simp
      show "bp - 1 < 20" using "1.prems"(4) by simp
      show "length ?b = 20" using "1.prems"(5) by simp
      show "min_int + int (length (dec (nat (quo i 10)))) - 1 \<le> wrap (wid - 1)"
        unfolding qd lq w using "1.prems"(6) True by (auto simp: min_int_def)
    qed
    then obtain i' bp' b' where
      r: "itoa_loop (quo i 10) (wrap (wid - 1)) (bp - 1) ?b = Some (i', bp', b')"
      and bnd: "0 \<le> bp'" "bp' \<le> bp - 1" "length b' = 20" "0 \<le> i'" "i' < 10"
      and eq: "byte (48 + i') # drop (nat bp' + 1) b'
               = pad0 (nat (wrap (wid - 1))) (dec (nat (quo i 10))) @ drop (nat (bp - 1) + 1) ?b"
      by blast
    have idx: "nat (bp - 1) + 1 = nat bp" using bp1 by simp
    have dr: "drop (nat bp) (b[nat bp := byte (48 + i - i div 10 * 10)])
              = byte (48 + i mod 10) # drop (nat bp + 1) b"
      unfolding d using "1.prems"(4,5) bp0 by (simp add: drop_update_here)
    have pd: "pad0 (nat (wid - 1)) (dec (nat (i div 10))) @ [byte (48 + i mod 10)]
              = pad0 (nat wid) (dec (nat i))"
    proof (cases "10 \<le> i")
      case True
      moreover have "nat (wid - 1) = nat wid - 1" by simp
      ultimately show ?thesis by (simp add: dec_nat_large pad0_snoc)
    next
      case False
      with True have w1: "1 < wid" by simp
      from False "1.prems"(1) have "i div 10 = 0" by simp
      moreover have "dec (nat i) = [byte (48 + i)]"
        using False "1.prems"(1) by (intro dec_digit) simp_all
      moreover have "i mod 10 = i" using False "1.prems"(1) by simp
      ultimately show ?thesis using pad0_zero_snoc [OF w1] by (simp add: dec_0)
    qed
    have "byte (48 + i') # drop (nat bp' + 1) b' = pad0 (nat wid) (dec (nat i)) @ drop (nat bp + 1) b"
      using eq pd unfolding w qd idx unfolding dr by simp
    then show ?thesis
      using True "1.prems" bp0 r bnd by (subst itoa_loop.simps) (simp add: Let_def)
  qed
qed




lemma itoa_buf_digits:
  assumes "0 \<le> i" "i \<le> max_int" "wid \<le> 20"
    "min_int + int (length (dec (nat i))) - 1 \<le> wid"
  shows "\<exists>i'. itoa_buf i wid = Some (i', pad0 (nat wid) (dec (nat i))) \<and> 0 \<le> i' \<and> i' < 10"
proof -
  let ?b = "replicate 20 (CHR 0x00)"
  have "\<exists>i' bp' b'. itoa_loop i wid 19 ?b = Some (i', bp', b') \<and> 0 \<le> bp' \<and> bp' \<le> 19
           \<and> length b' = 20 \<and> 0 \<le> i' \<and> i' < 10
           \<and> byte (48 + i') # drop (nat bp' + 1) b'
               = pad0 (nat wid) (dec (nat i)) @ drop (nat 19 + 1) ?b"
    using assms length_dec_int [of i] by (intro itoa_loop_digits) simp_all
  then obtain i' bp' b' where
    r: "itoa_loop i wid 19 ?b = Some (i', bp', b')"
    and bnd: "0 \<le> bp'" "bp' \<le> 19" "length b' = 20" "0 \<le> i'" "i' < 10"
    and eq: "byte (48 + i') # drop (nat bp' + 1) b' = pad0 (nat wid) (dec (nat i)) @ drop (nat 19 + 1) ?b"
    by blast
  have "drop (nat bp') (b'[nat bp' := byte (48 + i')]) = byte (48 + i') # drop (nat bp' + 1) b'"
    using bnd by (simp add: drop_update_here)
  with eq have "drop (nat bp') (b'[nat bp' := byte (48 + i')]) = pad0 (nat wid) (dec (nat i))"
    by simp
  then show ?thesis using r bnd by (simp add: itoa_buf_def)
qed

lemma itoa_buf_some:
  assumes "i \<le> max_int" "wid \<le> 20" "min_int + 19 \<le> wid"
  shows "\<exists>i' bs. itoa_buf i wid = Some (i', bs)"
proof -
  let ?b = "replicate 20 (CHR 0x00)"
  have "i < 10 ^ nat (19 + 1)" using assms(1) by (simp add: max_int_def)
  then have "\<exists>i' bp' b'. itoa_loop i wid 19 ?b = Some (i', bp', b') \<and> 0 \<le> bp' \<and> bp' \<le> 19
           \<and> length b' = 20"
    using assms by (intro itoa_loop_some) simp_all
  then show ?thesis by (auto simp: itoa_buf_def)
qed


section \<open>Streams that accept every write, and streams that do not\<close>

lemma Write_healthy: "faults w = [] \<Longrightarrow> Write w p = (w\<lparr>out := out w @ p\<rparr>, None)"
  by (simp add: Write_def)

lemma writeString_healthy: "faults w = [] \<Longrightarrow> writeString w str = w\<lparr>out := out w @ str\<rparr>"
  by (simp add: writeString_def Write_healthy)

lemma itoa_healthy:
  "faults w = [] \<Longrightarrow> itoa_buf i wid = Some (i', bs) \<Longrightarrow> itoa w i wid = Some (w\<lparr>out := out w @ bs\<rparr>)"
  by (simp add: itoa_def Write_healthy)

lemma itoa_bytes_some: "itoa_buf i wid = Some (i', bs) \<Longrightarrow> itoa_bytes i wid = bs"
  by (simp add: itoa_bytes_def)

lemma itoa_healthy_bytes:
  assumes "faults w = []" "i \<le> max_int" "wid \<le> 20" "min_int + 19 \<le> wid"
  shows "itoa w i wid = Some (w\<lparr>out := out w @ itoa_bytes i wid\<rparr>)"
proof -
  obtain i' bs where r: "itoa_buf i wid = Some (i', bs)"
    using itoa_buf_some [OF assms(2,3,4)] by blast
  then show ?thesis using assms(1) by (simp add: itoa_healthy itoa_bytes_some)
qed

lemma itoa_total:
  assumes "i \<le> max_int" "wid \<le> 20" "min_int + 19 \<le> wid"
  shows "\<exists>w'. itoa w i wid = Some w'"
proof -
  obtain i' bs where r: "itoa_buf i wid = Some (i', bs)"
    using itoa_buf_some [OF assms] by blast
  then show ?thesis by (cases "Write w bs") (auto simp: itoa_def split: option.splits)
qed

lemma itoa_bytes_digits:
  assumes "0 \<le> i" "i \<le> max_int" "wid \<le> 20" "min_int + 18 \<le> wid"
  shows "itoa_bytes i wid = pad0 (nat wid) (dec (nat i))"
proof -
  have "min_int + int (length (dec (nat i))) - 1 \<le> wid"
    using assms(4) length_dec_int [OF assms(2)] by simp
  then obtain i' where "itoa_buf i wid = Some (i', pad0 (nat wid) (dec (nat i)))"
    using itoa_buf_digits [OF assms(1,2,3)] by blast
  then show ?thesis by (rule itoa_bytes_some)
qed

lemma div_1000_bounds:
  assumes "0 \<le> (n::int)"
  shows "0 \<le> n div 1000" "n div 1000 \<le> n"
proof -
  show "0 \<le> n div 1000" using assms by (simp add: pos_imp_zdiv_nonneg_iff)
  have "n div 1000 \<le> n div 1" using assms by (intro zdiv_mono2) simp_all
  then show "n div 1000 \<le> n" by simp
qed

lemma valid_Time_bounds:
  assumes "valid_Time t"
  shows "tm_year t \<le> max_int" "tm_month t \<le> max_int" "tm_day t \<le> max_int"
    "tm_hour t \<le> max_int" "tm_min t \<le> max_int" "tm_sec t \<le> max_int"
    "quo (tm_nsec t) 1000 \<le> max_int"
    "0 \<le> tm_month t" "0 \<le> tm_day t" "0 \<le> tm_hour t" "0 \<le> tm_min t" "0 \<le> tm_sec t"
    "0 \<le> quo (tm_nsec t) 1000" "quo (tm_nsec t) 1000 = tm_nsec t div 1000"
proof -
  have n: "0 \<le> tm_nsec t" "tm_nsec t \<le> 999999999"
    using assms by (simp_all add: valid_Time_def)
  then show "quo (tm_nsec t) 1000 = tm_nsec t div 1000"
    by (simp add: quo_def)
  moreover have "0 \<le> tm_nsec t div 1000" "tm_nsec t div 1000 \<le> 999999999"
    using div_1000_bounds [OF n(1)] n(2) by simp_all
  ultimately show "quo (tm_nsec t) 1000 \<le> max_int" "0 \<le> quo (tm_nsec t) 1000"
    by (simp_all add: max_int_def)
qed (use assms in \<open>simp_all add: valid_Time_def is_int_def max_int_def\<close>)

lemma last_index: "msg \<noteq> [] \<Longrightarrow> msg ! (length msg - Suc 0) = last msg"
  by (simp add: last_conv_nth)

lemma TextFormatter_Format_healthy:
  assumes "valid_Time t" "faults w = []"
  shows "TextFormatter_Format w l msg t =
     Some (w\<lparr>out := out w @ text_stamp t @ '' '' @
              (case logLevel l of Dbg \<Rightarrow> ''DBG '' | Nfo \<Rightarrow> ''NFO '' | Wrn \<Rightarrow> ''WRN ''
               | Err \<Rightarrow> ''ERR '' | Ftl \<Rightarrow> ''FTL '' | Unknown k \<Rightarrow> []) @
              msg @ (if msg = [] \<or> last msg \<noteq> CHR 0x0A then [CHR 0x0A] else [])\<rparr>, None)"
proof -
  have m: "min_int + 19 \<le> 2" "min_int + 19 \<le> 4" "min_int + 19 \<le> 6"
    by (simp_all add: min_int_def)
  show ?thesis
    using assms(2) valid_Time_bounds(1-7) [OF assms(1)] m
    by (cases "msg = []")
      (simp_all add: TextFormatter_Format_def Date_def Clock_def Nanosecond_def text_stamp_def
        itoa_healthy_bytes writeString_healthy last_index Let_def)
qed

lemma TextFormatter_Format_total:
  assumes "valid_Time t"
  shows "\<exists>w'. TextFormatter_Format w l msg t = Some (w', None)"
proof -
  have m: "min_int + 19 \<le> 2" "min_int + 19 \<le> 4" "min_int + 19 \<le> 6"
    by (simp_all add: min_int_def)
  note b = valid_Time_bounds(1-7) [OF assms]
  obtain w1 where 1: "itoa w (tm_year t) 4 = Some w1"
    using itoa_total [OF b(1) _ m(2)] by auto
  obtain w3 where 3: "itoa (writeString w1 ''-'') (tm_month t) 2 = Some w3"
    using itoa_total [OF b(2) _ m(1)] by auto
  obtain w5 where 5: "itoa (writeString w3 ''-'') (tm_day t) 2 = Some w5"
    using itoa_total [OF b(3) _ m(1)] by auto
  obtain w7 where 7: "itoa (writeString w5 '' '') (tm_hour t) 2 = Some w7"
    using itoa_total [OF b(4) _ m(1)] by auto
  obtain w9 where 9: "itoa (writeString w7 '':'') (tm_min t) 2 = Some w9"
    using itoa_total [OF b(5) _ m(1)] by auto
  obtain w11 where 11: "itoa (writeString w9 '':'') (tm_sec t) 2 = Some w11"
    using itoa_total [OF b(6) _ m(1)] by auto
  obtain w13 where 13: "itoa (writeString w11 '':'') (quo (tm_nsec t) 1000) 6 = Some w13"
    using itoa_total [OF b(7) _ m(3)] by auto
  show ?thesis
    by (simp add: TextFormatter_Format_def Date_def Clock_def Nanosecond_def Let_def
        1 3 5 7 9 11 13)
qed

lemma itoa_None_iff: "(itoa w i wid = None) = (itoa_buf i wid = None)"
  by (cases "itoa_buf i wid"; cases "Write w (snd (the (itoa_buf i wid)))")
     (auto simp: itoa_def split: option.splits prod.splits)

lemma length_pad0: "length (pad0 w s) = max w (length s)"
  by (simp add: pad0_def)

lemma snoc2_eq: "(ys @ [a, b] = xs @ [c, d]) = (ys = xs \<and> a = c \<and> b = d)"
proof -
  have "ys @ [a, b] = (ys @ [a]) @ [b]" "xs @ [c, d] = (xs @ [c]) @ [d]"
    by simp_all
  then show ?thesis by (simp only: append1_eq_conv) auto
qed

lemma snoc1_ne_snoc2: "[] @ [a] \<noteq> xs @ [c, d]"
  by simp

lemma JSONFormatter_Format_fields:
  "fields_map (fst (snd (JSONFormatter_Format String marshal w l msg t)))
     = (fields_map l)(''msg'' \<mapsto> Str msg, ''timestamp'' \<mapsto> Str (getTimestamp t),
                      ''level'' \<mapsto> Str (String (logLevel l)))"
  "logLevel (fst (snd (JSONFormatter_Format String marshal w l msg t))) = logLevel l"
  by (simp_all add: JSONFormatter_Format_def Let_def split: prod.splits option.splits)

section \<open>Results about the formatters\<close>

text \<open>
  C1.  For the level Info, the message \<open>started\<close> and the time stamp
  2024-01-05T08:03:09.123456, \<open>TextFormatter.Format\<close> on a stream that accepts every
  write leaves exactly the bytes \<open>2024-01-05 08:03:09:123456 NFO started\<close> and a newline
  on the stream, prints nothing on standard error and returns no error.
\<close>

theorem TextFormatter_Format_example:
  "TextFormatter_Format \<lparr>out = [], diag = [], faults = []\<rparr>
     \<lparr>fields_map = (Map.empty :: string \<rightharpoonup> unit any), logLevel = Nfo\<rparr> ''started''
     \<lparr>tm_year = 2024, tm_month = 1, tm_day = 5, tm_hour = 8, tm_min = 3, tm_sec = 9,
      tm_nsec = 123456000\<rparr>
   = Some (\<lparr>out = ''2024-01-05 08:03:09:123456 NFO started'' @ [CHR 0x0A],
            diag = [], faults = []\<rparr>, None)"
  by code_simp

text \<open>
  C5, as amended.  For every non-negative \<open>int\<close> \<open>i\<close> and every width from \<open>-2^63 + 18\<close>
  to 20, \<open>itoa\<close> returns normally and hands to the stream the decimal digits of \<open>i\<close>
  preceded by as many \<open>0\<close> characters as are needed to reach the width: the width is a
  minimum, and the digits are never cut.  On a stream that accepts the write, exactly these
  bytes are appended.  (Widths above 20 are outside: there the 20-byte buffer overflows.)
\<close>

theorem itoa_pads_to_width:
  assumes "0 \<le> i" "i \<le> max_int" "min_int + 18 \<le> wid" "wid \<le> 20"
  shows "itoa w i wid \<noteq> None \<and>
         itoa_bytes i wid = replicate (nat wid - length (dec (nat i))) (CHR ''0'') @ dec (nat i) \<and>
         length (itoa_bytes i wid) = max (nat wid) (length (dec (nat i))) \<and>
         (faults w = [] \<longrightarrow> itoa w i wid = Some (w\<lparr>out := out w @ itoa_bytes i wid\<rparr>))"
proof -
  have b: "itoa_bytes i wid = pad0 (nat wid) (dec (nat i))"
    by (rule itoa_bytes_digits [OF assms(1,2,4,3)])
  have "min_int + int (length (dec (nat i))) - 1 \<le> wid"
    using assms(3) length_dec_int [OF assms(2)] by simp
  then have s: "\<exists>i' bs. itoa_buf i wid = Some (i', bs)"
    using itoa_buf_digits [OF assms(1,2,4)] by blast
  have h: "faults w = [] \<Longrightarrow> itoa w i wid = Some (w\<lparr>out := out w @ itoa_bytes i wid\<rparr>)"
    using s by (auto simp: itoa_healthy itoa_bytes_some)
  show ?thesis
    using s h by (auto simp: b length_pad0 itoa_None_iff) (simp add: pad0_def)
qed

theorem itoa_pads_to_width_witness:
  "itoa \<lparr>out = ''x'', diag = [], faults = []\<rparr> 7 3 = Some \<lparr>out = ''x007'', diag = [], faults = []\<rparr>
   \<and> itoa \<lparr>out = ''x'', diag = [], faults = []\<rparr> 12345 2
       = Some \<lparr>out = ''x12345'', diag = [], faults = []\<rparr>"
proof -
  have e: "itoa_bytes 7 3 = ''007''" "itoa_bytes 12345 2 = ''12345''"
    by code_simp+
  have r: "(0::int) \<le> 7" "7 \<le> max_int" "min_int + 18 \<le> 3" "(3::int) \<le> 20"
    "(0::int) \<le> 12345" "12345 \<le> max_int" "min_int + 18 \<le> 2" "(2::int) \<le> 20"
    by (simp_all add: max_int_def min_int_def)
  show ?thesis
    using itoa_pads_to_width [OF r(1-4), of "\<lparr>out = ''x'', diag = [], faults = []\<rparr>"]
      itoa_pads_to_width [OF r(5-8), of "\<lparr>out = ''x'', diag = [], faults = []\<rparr>"]
    by (simp add: e)
qed

theorem itoa_width_21_counterexample:
  "itoa \<lparr>out = [], diag = [], faults = []\<rparr> 0 21 = None"
  by code_simp




text \<open>
  C4, as amended.  On a stream that accepts every write, the bytes before the message do
  not depend on the message, the message follows verbatim, and exactly one newline is
  appended if and only if the message is empty or does not end with a newline; nothing is
  appended otherwise.  Consequently the output ends with two newline characters exactly
  when the message itself ends with two newline characters: the formatter never adds a
  second one.
\<close>

theorem TextFormatter_Format_newline:
  assumes "valid_Time t" "faults w = []"
  shows "\<exists>pre. (\<forall>m. TextFormatter_Format w l m t =
                  Some (w\<lparr>out := out w @ pre @ m @
                          (if m = [] \<or> last m \<noteq> CHR 0x0A then [CHR 0x0A] else [])\<rparr>, None)) \<and>
               ((\<exists>xs. pre @ msg @ (if msg = [] \<or> last msg \<noteq> CHR 0x0A then [CHR 0x0A] else [])
                       = xs @ [CHR 0x0A, CHR 0x0A])
                = (\<exists>ys. msg = ys @ [CHR 0x0A, CHR 0x0A]))"
proof -
  define lab where "lab = (case logLevel l of Dbg \<Rightarrow> ''DBG '' | Nfo \<Rightarrow> ''NFO '' | Wrn \<Rightarrow> ''WRN ''
               | Err \<Rightarrow> ''ERR '' | Ftl \<Rightarrow> ''FTL '' | Unknown k \<Rightarrow> [])"
  define pre where "pre = text_stamp t @ '' '' @ lab"
  have sp: "\<exists>p. pre = p @ '' ''"
    by (cases "logLevel l") (auto simp: pre_def lab_def)
  then obtain p where p: "pre = p @ '' ''" by blast
  have 1: "TextFormatter_Format w l m t =
             Some (w\<lparr>out := out w @ pre @ m @
                     (if m = [] \<or> last m \<noteq> CHR 0x0A then [CHR 0x0A] else [])\<rparr>, None)" for m
    using TextFormatter_Format_healthy [OF assms, of l m] by (simp add: pre_def lab_def)
  have 2: "(\<exists>xs. pre @ msg @ (if msg = [] \<or> last msg \<noteq> CHR 0x0A then [CHR 0x0A] else [])
                       = xs @ [CHR 0x0A, CHR 0x0A])
                = (\<exists>ys. msg = ys @ [CHR 0x0A, CHR 0x0A])"
  proof (cases msg rule: rev_cases)
    case Nil
    have "pre @ [CHR 0x0A] = p @ [CHR '' '', CHR 0x0A]" by (simp add: p)
    then show ?thesis using Nil by (simp add: snoc2_eq)
  next
    case (snoc ms c)
    show ?thesis
    proof (cases "c = CHR 0x0A")
      case False
      have "pre @ msg @ [CHR 0x0A] = (pre @ ms) @ [c, CHR 0x0A]" by (simp add: snoc)
      moreover have "msg = [] @ [c] \<or> (\<exists>us u. msg = us @ [u, c])"
        by (cases ms rule: rev_cases) (simp_all add: snoc)
      ultimately show ?thesis using False snoc
        by (auto simp: snoc2_eq snoc1_ne_snoc2)
    next
      case True
      show ?thesis
      proof (cases ms rule: rev_cases)
        case Nil
        have "pre @ msg = p @ [CHR '' '', CHR 0x0A]" by (simp add: p snoc Nil True)
        moreover have "msg = [] @ [CHR 0x0A]" by (simp add: snoc Nil True)
        ultimately show ?thesis using True snoc
          by (simp add: snoc2_eq snoc1_ne_snoc2)
      next
        case (snoc ms' d)
        have "pre @ msg = (pre @ ms') @ [d, CHR 0x0A]" "msg = ms' @ [d, CHR 0x0A]"
          by (simp_all add: \<open>msg = ms @ [c]\<close> snoc True)
        then show ?thesis by (simp add: snoc2_eq)
      qed
    qed
  qed
  show ?thesis using 1 2 by blast
qed


theorem TextFormatter_Format_newline_witness:
  "\<exists>pre.
     TextFormatter_Format \<lparr>out = [], diag = [], faults = []\<rparr>
       \<lparr>fields_map = (Map.empty :: string \<rightharpoonup> unit any), logLevel = Nfo\<rparr> (''hello'' @ [CHR 0x0A])
       \<lparr>tm_year = 2024, tm_month = 1, tm_day = 5, tm_hour = 8, tm_min = 3, tm_sec = 9,
        tm_nsec = 123456000\<rparr>
       = Some (\<lparr>out = pre @ ''hello'' @ [CHR 0x0A], diag = [], faults = []\<rparr>, None) \<and>
     TextFormatter_Format \<lparr>out = [], diag = [], faults = []\<rparr>
       \<lparr>fields_map = (Map.empty :: string \<rightharpoonup> unit any), logLevel = Nfo\<rparr> ''hello''
       \<lparr>tm_year = 2024, tm_month = 1, tm_day = 5, tm_hour = 8, tm_min = 3, tm_sec = 9,
        tm_nsec = 123456000\<rparr>
       = Some (\<lparr>out = pre @ ''hello'' @ [CHR 0x0A], diag = [], faults = []\<rparr>, None) \<and>
     TextFormatter_Format \<lparr>out = [], diag = [], faults = []\<rparr>
       \<lparr>fields_map = (Map.empty :: string \<rightharpoonup> unit any), logLevel = Nfo\<rparr> []
       \<lparr>tm_year = 2024, tm_month = 1, tm_day = 5, tm_hour = 8, tm_min = 3, tm_sec = 9,
        tm_nsec = 123456000\<rparr>
       = Some (\<lparr>out = pre @ [CHR 0x0A], diag = [], faults = []\<rparr>, None)"
proof -
  let ?t = "\<lparr>tm_year = 2024, tm_month = 1, tm_day = 5, tm_hour = 8, tm_min = 3, tm_sec = 9,
        tm_nsec = 123456000\<rparr>"
  let ?w = "\<lparr>out = [], diag = [], faults = []\<rparr>"
  let ?l = "\<lparr>fields_map = (Map.empty :: string \<rightharpoonup> unit any), logLevel = Nfo\<rparr>"
  have v: "valid_Time ?t"
    by (simp add: valid_Time_def is_int_def min_int_def max_int_def)
  have f: "faults ?w = []" by simp
  obtain pre where
    a: "\<And>m. TextFormatter_Format ?w ?l m ?t =
          Some (?w\<lparr>out := out ?w @ pre @ m @
                  (if m = [] \<or> last m \<noteq> CHR 0x0A then [CHR 0x0A] else [])\<rparr>, None)"
    using TextFormatter_Format_newline [OF v f, of ?l "[]"] by blast
  show ?thesis
    using a [of "''hello'' @ [CHR 0x0A]"] a [of "''hello''"] a [of "[]"]
    by (intro exI [of _ pre]) simp
qed

theorem TextFormatter_Format_newline_counterexample:
  "TextFormatter_Format \<lparr>out = [], diag = [], faults = []\<rparr>
     \<lparr>fields_map = (Map.empty :: string \<rightharpoonup> unit any), logLevel = Nfo\<rparr>
     (''hello'' @ [CHR 0x0A, CHR 0x0A])
     \<lparr>tm_year = 2024, tm_month = 1, tm_day = 5, tm_hour = 8, tm_min = 3, tm_sec = 9,
      tm_nsec = 123456000\<rparr>
   = Some (\<lparr>out = ''2024-01-05 08:03:09:123456 NFO hello'' @ [CHR 0x0A, CHR 0x0A],
            diag = [], faults = []\<rparr>, None)"
  by code_simp

text \<open>
  C6.  \<open>TextFormatter.Format\<close> returns no error on every input, whatever the stream does
  with the writes: for every valid time stamp, every message, level and stream it ends
  normally with the error \<open>nil\<close>.  A write that fails inside \<open>writeString\<close> or \<open>itoa\<close>
  is reported on standard error with the helper's message and is not returned.
\<close>

theorem TextFormatter_Format_returns_nil:
  assumes "valid_Time t"
  shows "(\<exists>w'. TextFormatter_Format w l msg t = Some (w', None)) \<and>
         (\<forall>str w1 err. Write w str = (w1, Some err) \<longrightarrow>
            writeString w str = w1\<lparr>diag := diag w1 @ ''could not write entry log, err: '' @ err\<rparr>) \<and>
         (\<forall>i wid i' bs w1 err. itoa_buf i wid = Some (i', bs) \<longrightarrow> Write w bs = (w1, Some err) \<longrightarrow>
            itoa w i wid = Some (w1\<lparr>diag := diag w1 @ ''failed adding zero padding to '' @ fmt_d i'\<rparr>))"
  using TextFormatter_Format_total [OF assms, of w l msg]
  by (simp add: writeString_def itoa_def Fprintf_Stderr_def)

theorem TextFormatter_Format_returns_nil_witness:
  "valid_Time \<lparr>tm_year = 2024, tm_month = 1, tm_day = 5, tm_hour = 8, tm_min = 3, tm_sec = 9,
      tm_nsec = 123456000\<rparr> \<and>
   (\<exists>w'. TextFormatter_Format \<lparr>out = [], diag = [], faults = [Some (2, ''closed''), None, Some (0, ''full'')]\<rparr>
      \<lparr>fields_map = (Map.empty :: string \<rightharpoonup> unit any), logLevel = Err\<rparr> ''boom''
      \<lparr>tm_year = 2024, tm_month = 1, tm_day = 5, tm_hour = 8, tm_min = 3, tm_sec = 9,
       tm_nsec = 123456000\<rparr> = Some (w', None))"
proof -
  have v: "valid_Time \<lparr>tm_year = 2024, tm_month = 1, tm_day = 5, tm_hour = 8, tm_min = 3,
      tm_sec = 9, tm_nsec = 123456000\<rparr>"
    by (simp add: valid_Time_def is_int_def min_int_def max_int_def)
  show ?thesis
    using v TextFormatter_Format_returns_nil [OF v] by blast
qed

text \<open>
  C9.  For a level that is none of the five known ones, \<open>TextFormatter.Format\<close> returns
  no error on any stream, and on a stream that accepts every write the line is the date and
  time, a space, the message and the newline of C4 with nothing where a known level has its
  four-character label; the rest of the line is the same as for each known level.
\<close>

theorem TextFormatter_Format_unknown_level:
  assumes "valid_Time t"
  shows "(\<exists>w'. TextFormatter_Format w (l\<lparr>logLevel := Unknown k\<rparr>) msg t = Some (w', None)) \<and>
    (faults w = [] \<longrightarrow>
      (let nl = (if msg = [] \<or> last msg \<noteq> CHR 0x0A then [CHR 0x0A] else []) in
       TextFormatter_Format w (l\<lparr>logLevel := Unknown k\<rparr>) msg t
         = Some (w\<lparr>out := out w @ text_stamp t @ '' '' @ msg @ nl\<rparr>, None) \<and>
       TextFormatter_Format w (l\<lparr>logLevel := Dbg\<rparr>) msg t
         = Some (w\<lparr>out := out w @ text_stamp t @ '' '' @ ''DBG '' @ msg @ nl\<rparr>, None) \<and>
       TextFormatter_Format w (l\<lparr>logLevel := Nfo\<rparr>) msg t
         = Some (w\<lparr>out := out w @ text_stamp t @ '' '' @ ''NFO '' @ msg @ nl\<rparr>, None) \<and>
       TextFormatter_Format w (l\<lparr>logLevel := Wrn\<rparr>) msg t
         = Some (w\<lparr>out := out w @ text_stamp t @ '' '' @ ''WRN '' @ msg @ nl\<rparr>, None) \<and>
       TextFormatter_Format w (l\<lparr>logLevel := Err\<rparr>) msg t
         = Some (w\<lparr>out := out w @ text_stamp t @ '' '' @ ''ERR '' @ msg @ nl\<rparr>, None) \<and>
       TextFormatter_Format w (l\<lparr>logLevel := Ftl\<rparr>) msg t
         = Some (w\<lparr>out := out w @ text_stamp t @ '' '' @ ''FTL '' @ msg @ nl\<rparr>, None)))"
proof -
  have "\<exists>w'. TextFormatter_Format w (l\<lparr>logLevel := Unknown k\<rparr>) msg t = Some (w', None)"
    using assms by (rule TextFormatter_Format_total)
  moreover have "TextFormatter_Format w (l\<lparr>logLevel := lv\<rparr>) msg t =
     Some (w\<lparr>out := out w @ text_stamp t @ '' '' @
              (case lv of Dbg \<Rightarrow> ''DBG '' | Nfo \<Rightarrow> ''NFO '' | Wrn \<Rightarrow> ''WRN ''
               | Err \<Rightarrow> ''ERR '' | Ftl \<Rightarrow> ''FTL '' | Unknown k \<Rightarrow> []) @
              msg @ (if msg = [] \<or> last msg \<noteq> CHR 0x0A then [CHR 0x0A] else [])\<rparr>, None)"
    if "faults w = []" for lv
    using TextFormatter_Format_healthy [OF assms that, of "l\<lparr>logLevel := lv\<rparr>" msg] by simp
  ultimately show ?thesis
    by (simp add: Let_def)
qed

theorem TextFormatter_Format_unknown_level_witness:
  "TextFormatter_Format \<lparr>out = [], diag = [], faults = []\<rparr>
     \<lparr>fields_map = (Map.empty :: string \<rightharpoonup> unit any), logLevel = Unknown 7\<rparr> ''started''
     \<lparr>tm_year = 2024, tm_month = 1, tm_day = 5, tm_hour = 8, tm_min = 3, tm_sec = 9,
      tm_nsec = 123456000\<rparr>
   = Some (\<lparr>out = ''2024-01-05 08:03:09:123456 started'' @ [CHR 0x0A],
            diag = [], faults = []\<rparr>, None)"
proof -
  let ?t = "\<lparr>tm_year = 2024, tm_month = 1, tm_day = 5, tm_hour = 8, tm_min = 3, tm_sec = 9,
        tm_nsec = 123456000\<rparr>"
  have v: "valid_Time ?t"
    by (simp add: valid_Time_def is_int_def min_int_def max_int_def)
  have s: "text_stamp ?t = ''2024-01-05 08:03:09:123456''"
    by code_simp
  show ?thesis
    using TextFormatter_Format_unknown_level [OF v, where w = "\<lparr>out = [], diag = [], faults = []\<rparr>"
        and l = "\<lparr>fields_map = (Map.empty :: string \<rightharpoonup> unit any), logLevel = Nfo\<rparr>"
        and k = 7 and msg = "''started''"]
    by (simp add: s Let_def)
qed

text \<open>
  C7.  A call of \<open>JSONFormatter.Format\<close> leaves the logger's field mapping with \<open>msg\<close>,
  \<open>timestamp\<close> and \<open>level\<close> set to the message, to \<open>getTimestamp\<close> of the time and to
  the name of the level, whatever these keys held before; every other key and the level
  are unchanged.  A second call with the same message and time leaves the mapping as the
  first call left it: the entries are overwritten, not appended.
\<close>

theorem JSONFormatter_Format_injects:
  assumes "JSONFormatter_Format String marshal w l msg t = (w', l', r)"
    and "JSONFormatter_Format String marshal w' l' msg t = (w'', l'', r')"
  shows "fields_map l' ''msg'' = Some (Str msg) \<and>
         fields_map l' ''timestamp'' = Some (Str (getTimestamp t)) \<and>
         fields_map l' ''level'' = Some (Str (String (logLevel l))) \<and>
         (\<forall>k. k \<notin> {''msg'', ''timestamp'', ''level''} \<longrightarrow> fields_map l' k = fields_map l k) \<and>
         logLevel l' = logLevel l \<and>
         fields_map l'' = fields_map l'"
proof -
  have 1: "fields_map l' = (fields_map l)(''msg'' \<mapsto> Str msg,
              ''timestamp'' \<mapsto> Str (getTimestamp t), ''level'' \<mapsto> Str (String (logLevel l)))"
    and 2: "logLevel l' = logLevel l"
    using JSONFormatter_Format_fields [of String marshal w l msg t] assms(1) by simp_all
  have 3: "fields_map l'' = (fields_map l')(''msg'' \<mapsto> Str msg,
              ''timestamp'' \<mapsto> Str (getTimestamp t), ''level'' \<mapsto> Str (String (logLevel l')))"
    using JSONFormatter_Format_fields [of String marshal w' l' msg t] assms(2) by simp
  have "fields_map l'' = fields_map l'"
    unfolding 3 unfolding 1 2 by (rule ext) simp
  then show ?thesis by (simp add: 1 2)
qed

theorem JSONFormatter_Format_injects_witness:
  "fields_map (fst (snd (JSONFormatter_Format LogLevel_String (\<lambda>m. Inr ''{}'')
       \<lparr>out = [], diag = [], faults = []\<rparr>
       \<lparr>fields_map = [''user'' \<mapsto> Str ''a'', ''msg'' \<mapsto> (Val (1::nat))], logLevel = Err\<rparr> []
       \<lparr>tm_year = 2024, tm_month = 1, tm_day = 5, tm_hour = 8, tm_min = 3, tm_sec = 9,
        tm_nsec = 123456000\<rparr>))) ''msg'' = Some (Str []) \<and>
   fields_map (fst (snd (JSONFormatter_Format LogLevel_String (\<lambda>m. Inr ''{}'')
       \<lparr>out = [], diag = [], faults = []\<rparr>
       \<lparr>fields_map = [''user'' \<mapsto> Str ''a'', ''msg'' \<mapsto> (Val (1::nat))], logLevel = Err\<rparr> []
       \<lparr>tm_year = 2024, tm_month = 1, tm_day = 5, tm_hour = 8, tm_min = 3, tm_sec = 9,
        tm_nsec = 123456000\<rparr>))) ''level'' = Some (Str ''error'') \<and>
   fields_map (fst (snd (JSONFormatter_Format LogLevel_String (\<lambda>m. Inr ''{}'')
       \<lparr>out = [], diag = [], faults = []\<rparr>
       \<lparr>fields_map = [''user'' \<mapsto> Str ''a'', ''msg'' \<mapsto> (Val (1::nat))], logLevel = Err\<rparr> []
       \<lparr>tm_year = 2024, tm_month = 1, tm_day = 5, tm_hour = 8, tm_min = 3, tm_sec = 9,
        tm_nsec = 123456000\<rparr>))) ''user'' = Some (Str ''a'')"
proof -
  let ?R = "JSONFormatter_Format LogLevel_String (\<lambda>m. Inr ''{}'')
       \<lparr>out = [], diag = [], faults = []\<rparr>
       \<lparr>fields_map = [''user'' \<mapsto> Str ''a'', ''msg'' \<mapsto> (Val (1::nat))], logLevel = Err\<rparr> []
       \<lparr>tm_year = 2024, tm_month = 1, tm_day = 5, tm_hour = 8, tm_min = 3, tm_sec = 9,
        tm_nsec = 123456000\<rparr>"
  let ?R2 = "JSONFormatter_Format LogLevel_String (\<lambda>m. Inr ''{}'') (fst ?R) (fst (snd ?R)) []
       \<lparr>tm_year = 2024, tm_month = 1, tm_day = 5, tm_hour = 8, tm_min = 3, tm_sec = 9,
        tm_nsec = 123456000\<rparr>"
  have a: "?R = (fst ?R, fst (snd ?R), snd (snd ?R))"
    and b: "?R2 = (fst ?R2, fst (snd ?R2), snd (snd ?R2))"
    by simp_all
  show ?thesis
    using JSONFormatter_Format_injects [OF a b] by simp
qed

text \<open>
  C8.  \<open>JSONFormatter.Format\<close> returns an error exactly when \<open>encoder.Encode\<close> returns
  one (the encoder fails when the mapping cannot be marshalled, and when the stream rejects
  the write of the marshalled line); the returned error is the text
  \<open>failed to marshal fields to JSON, \<close> followed by the encoder's error.  When the
  encoder succeeds the result is \<open>nil\<close>.  When marshalling fails nothing is written.
\<close>

theorem JSONFormatter_Format_error:
  assumes "JSONFormatter_Format String marshal w l msg t = (w', l', r)"
  shows "((r \<noteq> None) = (snd (Encoder_Encode marshal w (fields_map l')) \<noteq> None)) \<and>
         (\<forall>err. snd (Encoder_Encode marshal w (fields_map l')) = Some err \<longrightarrow>
            r = Some (''failed to marshal fields to JSON, '' @ err)) \<and>
         (snd (Encoder_Encode marshal w (fields_map l')) = None \<longrightarrow> r = None) \<and>
         w' = fst (Encoder_Encode marshal w (fields_map l')) \<and>
         (\<forall>err. marshal (fields_map l') = Inl err \<longrightarrow>
            r = Some (''failed to marshal fields to JSON, '' @ err) \<and> w' = w)"
  using assms
  by (auto simp: JSONFormatter_Format_def Encoder_Encode_def Let_def
      split: prod.splits option.splits sum.splits)

theorem JSONFormatter_Format_error_witness:
  "snd (snd (JSONFormatter_Format LogLevel_String
       (\<lambda>m. if m ''ch'' = None then Inr ''{}'' else Inl ''json: unsupported type: chan int'')
       \<lparr>out = [], diag = [], faults = []\<rparr>
       \<lparr>fields_map = [''ch'' \<mapsto> Val (0::nat)], logLevel = Err\<rparr> ''x''
       \<lparr>tm_year = 2024, tm_month = 1, tm_day = 5, tm_hour = 8, tm_min = 3, tm_sec = 9,
        tm_nsec = 123456000\<rparr>))
   = Some ''failed to marshal fields to JSON, json: unsupported type: chan int''"
proof -
  let ?m = "\<lambda>m :: string \<rightharpoonup> nat any.
     if m ''ch'' = None then Inr ''{}'' else Inl ''json: unsupported type: chan int'' :: go_error + string"
  let ?R = "JSONFormatter_Format LogLevel_String ?m
       \<lparr>out = [], diag = [], faults = []\<rparr>
       \<lparr>fields_map = [''ch'' \<mapsto> Val (0::nat)], logLevel = Err\<rparr> ''x''
       \<lparr>tm_year = 2024, tm_month = 1, tm_day = 5, tm_hour = 8, tm_min = 3, tm_sec = 9,
        tm_nsec = 123456000\<rparr>"
  have a: "?R = (fst ?R, fst (snd ?R), snd (snd ?R))"
    by simp
  have f: "fields_map (fst (snd ?R)) ''ch'' = Some (Val 0)"
    by (simp add: JSONFormatter_Format_fields)
  show ?thesis
    using JSONFormatter_Format_error [OF a] f by simp
qed

end
